theory Spec2Isabelle
  imports Complex_Main "HOL-Library.Mapping" "HOL-Library.AList_Mapping"
begin

section \<open>Errors\<close>

text \<open>
  Go errors are values.  \<open>External\<close> stands for an error handed back by a collaborator
  (\<open>os.Open\<close>, \<open>os.ReadFile\<close>, \<open>getNVDCVEFeedFiles\<close>, \<open>cvefeed.LoadJSONDictionary\<close>,
  \<open>json.Unmarshal\<close>, the datastore), \<open>Wrapped msg e\<close> for \<open>fmt.Errorf("msg: %w", e)\<close>.
  The three \<open>csv_error\<close>s are the parse errors of \<open>encoding/csv\<close> that a reader without
  \<open>LazyQuotes\<close> can return.
\<close>

datatype csv_error = ErrFieldCount | ErrQuote | ErrBareQuote

datatype error =
    External string
  | CSV csv_error
  | ParseFloatError
  | ParseTimeError
  | Wrapped string error

section \<open>The reader of \<open>encoding/csv\<close>\<close>

text \<open>
  \<open>parseEPSSScoresFile\<close> reads its file through a \<open>csv.Reader\<close> of the Go standard library.
  The reader is modelled on the lines of the file, each given without its line terminator,
  with the default comma, \<open>LazyQuotes\<close> and \<open>TrimLeadingSpace\<close> off.

  A line is cut into fields from left to right.  A field that does not start with a double
  quote runs to the next comma or to the end of the line and must not contain a quote
  (\<open>ErrBareQuote\<close>).  A field that starts with a quote runs to the closing quote, a doubled
  quote standing for one quote; the closing quote must be followed by a comma or by the end
  of the line (\<open>ErrQuote\<close>).  When the line ends inside a quoted field the field goes on, after
  a newline, with the next line of the file.
\<close>

datatype line_result =
    EndRecord "string list"
  | OpenQuote "string list" string
  | Invalid csv_error

abbreviation quote :: char where "quote \<equiv> CHR 0x22"
abbreviation comma :: char where "comma \<equiv> CHR '',''"
abbreviation newline :: char where "newline \<equiv> CHR 0x0A"

lemma length_tl_dropWhile:
  "dropWhile P xs \<noteq> [] \<Longrightarrow> length (tl (dropWhile P xs)) < length xs"
proof -
  assume ne: "dropWhile P xs \<noteq> []"
  have "length (dropWhile P xs) \<le> length xs"
    by (rule length_dropWhile_le)
  moreover from ne have "length (tl (dropWhile P xs)) < length (dropWhile P xs)"
    by (cases "dropWhile P xs") simp_all
  ultimately show ?thesis by linarith
qed

lemma length_tl_tl_dropWhile:
  "tl (dropWhile P xs) = c # cs \<Longrightarrow> length cs < length xs"
proof -
  assume eq: "tl (dropWhile P xs) = c # cs"
  have "dropWhile P xs \<noteq> []"
  proof
    assume "dropWhile P xs = []"
    with eq show False by simp
  qed
  then have "length (tl (dropWhile P xs)) < length xs"
    by (rule length_tl_dropWhile)
  with eq show ?thesis by simp
qed

function parseField :: "string list \<Rightarrow> string \<Rightarrow> line_result"
  and quotedField :: "string list \<Rightarrow> string \<Rightarrow> string \<Rightarrow> line_result"
where
  "parseField fs line =
     (if line \<noteq> [] \<and> hd line = quote then quotedField fs [] (tl line)
      else
        let field = takeWhile (\<lambda>c. c \<noteq> comma) line;
            rest = dropWhile (\<lambda>c. c \<noteq> comma) line
        in if quote \<in> set field then Invalid ErrBareQuote
           else if rest = [] then EndRecord (fs @ [field])
           else parseField (fs @ [field]) (tl rest))"
| "quotedField fs f line =
     (let pre = takeWhile (\<lambda>c. c \<noteq> quote) line;
          rest = dropWhile (\<lambda>c. c \<noteq> quote) line
      in if rest = [] then OpenQuote fs (f @ pre)
         else (case tl rest of
                 [] \<Rightarrow> EndRecord (fs @ [f @ pre])
               | c # cs \<Rightarrow>
                   if c = quote then quotedField fs (f @ pre @ [quote]) cs
                   else if c = comma then parseField (fs @ [f @ pre]) cs
                   else Invalid ErrQuote))"
  by pat_completeness auto

termination
proof (relation "measure (\<lambda>x. case x of Inl (fs, line) \<Rightarrow> length line
                                     | Inr (fs, f, line) \<Rightarrow> length line)", goal_cases)
  case 1
  show ?case by simp
next
  case (2 fs line)
  then show ?case by (cases line) simp_all
next
  case (3 fs line field rest)
  from 3(3,5) have "dropWhile (\<lambda>c. c \<noteq> comma) line \<noteq> []" by simp
  then have "length (tl (dropWhile (\<lambda>c. c \<noteq> comma) line)) < length line"
    by (rule length_tl_dropWhile)
  with 3(3) show ?case by simp
next
  case (4 fs f line pre rest c cs)
  from 4(2,4) have "length cs < length line"
    by (simp add: length_tl_tl_dropWhile)
  then show ?case by simp
next
  case (5 fs f line pre rest c cs)
  from 5(2,4) have "length cs < length line"
    by (simp add: length_tl_tl_dropWhile)
  then show ?case by simp
qed

declare parseField.simps [simp del] quotedField.simps [simp del]

text \<open>
  A record that is still inside a quoted field at the end of its line takes the next line;
  at the end of the file the open quote is an \<open>ErrQuote\<close>.  Whatever happens on a line, the
  reader has consumed it whole: after an error the next record starts on the next line.
\<close>

fun continueRecord :: "line_result \<Rightarrow> string list \<Rightarrow> (csv_error + string list) \<times> string list" where
  "continueRecord (EndRecord fs) ls = (Inr fs, ls)"
| "continueRecord (Invalid e) ls = (Inl e, ls)"
| "continueRecord (OpenQuote fs f) [] = (Inl ErrQuote, [])"
| "continueRecord (OpenQuote fs f) (l # ls) = continueRecord (quotedField fs (f @ [newline]) l) ls"

text \<open>
  \<open>readRecord\<close> skips the lines that start with the comment character and the empty lines,
  and reads one record; \<open>None\<close> is \<open>io.EOF\<close>.
\<close>

fun readRecord :: "char option \<Rightarrow> string list \<Rightarrow> (csv_error + string list) option \<times> string list" where
  "readRecord c [] = (None, [])"
| "readRecord c (l # ls) =
     (if l = [] \<or> Some (hd l) = c then readRecord c ls
      else let (res, rest) = continueRecord (parseField [] l) ls in (Some res, rest))"

record Reader =
  Comment :: "char option"
  FieldsPerRecord :: int
  input :: "string list"

definition NewReader :: "string list \<Rightarrow> Reader" where
  "NewReader ls = \<lparr>Comment = None, FieldsPerRecord = 0, input = ls\<rparr>"

datatype read_error = EOF | ParseError csv_error

text \<open>
  \<open>Read\<close> returns the next record or an error, and the reader moved past it.  With a positive
  \<open>FieldsPerRecord\<close> a record of another length is returned with \<open>ErrFieldCount\<close>; with
  \<open>FieldsPerRecord = 0\<close> the first record sets the number.  (Go hands back the fields read so
  far together with a parse error; no caller in this file looks at them, and the model
  returns the error alone.)
\<close>

definition Read :: "Reader \<Rightarrow> (read_error + string list) \<times> Reader" where
  "Read r =
     (case readRecord (Comment r) (input r) of
        (None, rest) \<Rightarrow> (Inl EOF, r\<lparr>input := rest\<rparr>)
      | (Some (Inl e), rest) \<Rightarrow> (Inl (ParseError e), r\<lparr>input := rest\<rparr>)
      | (Some (Inr rec), rest) \<Rightarrow>
          if FieldsPerRecord r > 0 then
            if int (length rec) \<noteq> FieldsPerRecord r
            then (Inl (ParseError ErrFieldCount), r\<lparr>input := rest\<rparr>)
            else (Inr rec, r\<lparr>input := rest\<rparr>)
          else if FieldsPerRecord r = 0
          then (Inr rec, r\<lparr>FieldsPerRecord := int (length rec), input := rest\<rparr>)
          else (Inr rec, r\<lparr>input := rest\<rparr>))"

lemma continueRecord_length:
  "continueRecord st ls = (res, rest) \<Longrightarrow> length rest \<le> length ls"
proof (induction st ls rule: continueRecord.induct)
  case (4 fs f l ls)
  then show ?case by fastforce
qed auto

lemma readRecord_length:
  "readRecord c ls = (Some res, rest) \<Longrightarrow> length rest < length ls"
proof (induction ls)
  case Nil
  then show ?case by simp
next
  case (Cons l ls)
  show ?case
  proof (cases "l = [] \<or> Some (hd l) = c")
    case True
    with Cons.prems have "readRecord c ls = (Some res, rest)" by simp
    then have "length rest < length ls" by (rule Cons.IH)
    then show ?thesis by simp
  next
    case False
    with Cons.prems have "continueRecord (parseField [] l) ls = (res, rest)"
      by (auto split: prod.splits)
    then have "length rest \<le> length ls" by (rule continueRecord_length)
    then show ?thesis by simp
  qed
qed

lemma Read_length:
  assumes "Read r = (res, r')" and "res \<noteq> Inl EOF"
  shows "length (input r') < length (input r)"
proof (cases "readRecord (Comment r) (input r)")
  case (Pair q rest)
  with assms obtain x where q: "q = Some x"
    by (cases q) (auto simp: Read_def)
  with Pair have "length rest < length (input r)"
    by (simp add: readRecord_length)
  moreover from assms(1) Pair have "input r' = rest"
    by (auto simp: Read_def q split: sum.splits if_splits)
  ultimately show ?thesis by simp
qed

lemma Read_shorter:
  "(res, r') = Read r \<Longrightarrow> res \<noteq> Inl EOF \<Longrightarrow> length (input r') < length (input r)"
  using Read_length [of r res r'] by simp

section \<open>The EPSS scores file\<close>

text \<open>
  \<open>epssScore\<close> is the struct of the source (its fields are \<open>CVE\<close> and \<open>Score\<close>; the first is
  called \<open>scoreCVE\<close> here, \<open>CVE\<close> being the field of \<open>CVEMeta\<close> below).  The type \<open>'f\<close>
  stands for \<open>float64\<close>: scores are carried along, never computed with.
  \<open>strconv.ParseFloat\<close> is the parameter \<open>parseFloat\<close>, \<open>None\<close> when it returns an error.
\<close>

record 'f epssScore =
  scoreCVE :: string
  Score :: 'f

text \<open>The \<open>for\<close> loop of \<open>parseEPSSScoresFile\<close>, from the reader after the header was read.\<close>

function parseEPSSScoresFile_loop ::
  "(string \<Rightarrow> 'f option) \<Rightarrow> Reader \<Rightarrow> 'f epssScore list \<Rightarrow> error + 'f epssScore list"
where
  "parseEPSSScoresFile_loop parseFloat r epssScores =
     (case Read r of
        (Inl EOF, r') \<Rightarrow> Inr epssScores
      | (Inl (ParseError e), r') \<Rightarrow> Inl (CSV e)
      | (Inr rec, r') \<Rightarrow>
          if length rec \<noteq> 3 then parseEPSSScoresFile_loop parseFloat r' epssScores
          else (case parseFloat (rec ! 1) of
                  None \<Rightarrow> Inl (Wrapped ''parse epss score'' ParseFloatError)
                | Some score \<Rightarrow>
                    parseEPSSScoresFile_loop parseFloat r'
                      (epssScores @ [\<lparr>scoreCVE = rec ! 0, Score = score\<rparr>])))"
  by pat_completeness auto
termination
proof (relation "measure (\<lambda>(parseFloat, r, epssScores). length (input r))", goal_cases)
  case 1
  show ?case by simp
next
  case (2 parseFloat r epssScores x1 x2 b)
  then show ?case by (simp add: Read_shorter)
next
  case (3 parseFloat r epssScores x1 x2 b x2a)
  then show ?case by (simp add: Read_shorter)
qed

declare parseEPSSScoresFile_loop.simps [simp del]

text \<open>
  \<open>parseEPSSScoresFile\<close>: the argument is what \<open>os.Open\<close> gives, an error or the lines of the
  file.  The first \<open>r.Read()\<close> skips the header; its results are dropped.
\<close>

definition parseEPSSScoresFile ::
  "(string \<Rightarrow> 'f option) \<Rightarrow> error + string list \<Rightarrow> error + 'f epssScore list"
where
  "parseEPSSScoresFile parseFloat f =
     (case f of
        Inl err \<Rightarrow> Inl err
      | Inr ls \<Rightarrow>
          let r = NewReader ls;
              r = r\<lparr>Comment := Some (CHR ''#'')\<rparr>;
              r = r\<lparr>FieldsPerRecord := 3\<rparr>;
              (header, r) = Read r
          in parseEPSSScoresFile_loop parseFloat r [])"

text \<open>
  The results of the successive calls of \<open>Read\<close>, up to the end of the file: the records of
  the file as the reader sees them.
\<close>

function records :: "Reader \<Rightarrow> (csv_error + string list) list" where
  "records r =
     (case Read r of
        (Inl EOF, r') \<Rightarrow> []
      | (Inl (ParseError e), r') \<Rightarrow> Inl e # records r'
      | (Inr rec, r') \<Rightarrow> Inr rec # records r')"
  by pat_completeness auto
termination
proof (relation "measure (\<lambda>r. length (input r))", goal_cases)
  case 1
  show ?case by simp
next
  case (2 r x1 x2 a x2a)
  then show ?case by (simp add: Read_shorter)
next
  case (3 r x1 x2 b)
  then show ?case by (simp add: Read_shorter)
qed

declare records.simps [simp del]

text \<open>
  A stand-in for \<open>strconv.ParseFloat\<close> at concrete inputs: it agrees with it on the strings
  it accepts (both values are exact in \<open>float64\<close>) and rejects every other string, among
  them those without a number in them, which \<open>strconv.ParseFloat\<close> rejects as well.
\<close>

definition parseFloat_sample :: "string \<Rightarrow> rat option" where
  "parseFloat_sample s =
     (if s = ''0.5'' then Some (1 / 2) else if s = ''0.25'' then Some (1 / 4) else None)"

text \<open>The reader as \<open>parseEPSSScoresFile\<close> configures it, on the lines \<open>ls\<close>.\<close>

definition epssReader :: "string list \<Rightarrow> Reader" where
  "epssReader ls = \<lparr>Comment = Some (CHR ''#''), FieldsPerRecord = 3, input = ls\<rparr>"

text \<open>
  What is wrong with a line taken as a record of its own: a quoting error on the line, or a
  number of fields other than 3.  A line that ends inside a quoted field is not judged here,
  since its record goes on with the next line.
\<close>

definition lineError :: "string \<Rightarrow> csv_error option" where
  "lineError l =
     (case parseField [] l of
        EndRecord fs \<Rightarrow> if length fs \<noteq> 3 then Some ErrFieldCount else None
      | Invalid e \<Rightarrow> Some e
      | OpenQuote fs f \<Rightarrow> None)"

text \<open>A line that the reader is done with at its end: skipped, or holding a whole record.\<close>

definition confined :: "string \<Rightarrow> bool" where
  "confined l =
     (l = [] \<or> hd l = CHR ''#'' \<or>
      (case parseField [] l of OpenQuote fs f \<Rightarrow> False | EndRecord fs \<Rightarrow> True | Invalid e \<Rightarrow> True))"

section \<open>The canonical mapping\<close>

text \<open>
  The fields of a \<open>fleet.CVEMeta\<close> other than the identifier are pointers, \<open>nil\<close> when no
  source had anything to say.  Three of them are set to the address of a variable of their
  own that is written once and never again (\<open>baseScore\<close> and \<open>published\<close> are declared in
  the body of their loop, \<open>ptr.Bool\<close> returns a pointer to a fresh copy of its argument):
  such a pointer is modelled by the value it points to, \<open>None\<close> for \<open>nil\<close>.

  \<open>EPSSProbability\<close> is set to \<open>&epssScore.Score\<close>, the address of a field of the variable
  of the \<open>range\<close> statement, and the loop assigns that variable at every iteration: a
  \<open>range\<close> statement has one variable for all its iterations in the Go of this code (the
  language gives each iteration a variable of its own from version 1.22 on).  So this
  pointer is modelled as an address in a heap of \<open>epssScore\<close> variables, and
  \<open>EPSSProbabilityValue\<close> reads the score through it.  Every address that the model stores
  in a record was allocated before, as in Go.
\<close>

type_synonym addr = nat

type_synonym 'f heap = "'f epssScore list"

text \<open>
  Modelled from the spec: the declaration of \<open>fleet.CVEMeta\<close> is in another package.  The
  record has the identifier and the four optional fields of the data model of the
  specification (severity score, exploit probability, known-exploited, published), under
  the names that \<open>LoadCVEMeta\<close> uses for them.
\<close>

record ('f, 't) CVEMeta =
  CVE :: string
  CVSSScore :: "'f option"
  EPSSProbability :: "addr option"
  CISAKnownExploit :: "bool option"
  Published :: "'t option"

type_synonym ('f, 't) metaMap = "(string, ('f, 't) CVEMeta) mapping"

definition EPSSProbabilityValue :: "'f heap \<Rightarrow> ('f, 't) CVEMeta \<Rightarrow> 'f option" where
  "EPSSProbabilityValue heap meta = map_option (\<lambda>a. Score (heap ! a)) (EPSSProbability meta)"

text \<open>The zero value of the struct, which \<open>metaMap[k]\<close> gives for a key that is not there.\<close>

definition zeroCVEMeta :: "('f, 't) CVEMeta" where
  "zeroCVEMeta =
     \<lparr>CVE = [], CVSSScore = None, EPSSProbability = None, CISAKnownExploit = None,
      Published = None\<rparr>"

definition commaOk :: "('f, 't) metaMap \<Rightarrow> string \<Rightarrow> ('f, 't) CVEMeta \<times> bool" where
  "commaOk metaMap k =
     (case Mapping.lookup metaMap k of None \<Rightarrow> (zeroCVEMeta, False) | Some v \<Rightarrow> (v, True))"

text \<open>
  An entry of the dictionary of \<open>cvefeed\<close>, as far as \<open>LoadCVEMeta\<close> reads it:
  \<open>BaseMetricV3\<close> is \<open>None\<close> for a \<open>nil\<close> \<open>schema.Impact.BaseMetricV3\<close> and else holds
  \<open>CVSSV3.BaseScore\<close>.
\<close>

record 'f Schema =
  BaseMetricV3 :: "'f option"
  PublishedDate :: string

text \<open>
  Lines 176 to 194: the loop over the dictionary.  Go leaves the order of a \<open>range\<close> over a
  map open; the dictionary is given as the list of its entries in the order of the visit.
  \<open>timeParse\<close> is \<open>time.Parse(publishedDateFmt, \<cdot>)\<close>, \<open>None\<close> when it returns an error.
\<close>

fun seedCVSS ::
  "(string \<Rightarrow> 't option) \<Rightarrow> (string \<times> 'f Schema) list \<Rightarrow> ('f, 't) metaMap
     \<Rightarrow> error + ('f, 't) metaMap"
where
  "seedCVSS timeParse [] metaMap = Inr metaMap"
| "seedCVSS timeParse ((cve, schema) # dict) metaMap =
     (case BaseMetricV3 schema of
        None \<Rightarrow> seedCVSS timeParse dict metaMap
      | Some baseScore \<Rightarrow>
          (case timeParse (PublishedDate schema) of
             None \<Rightarrow> Inl (Wrapped ''parse published_date'' ParseTimeError)
           | Some published \<Rightarrow>
               let meta = \<lparr>CVE = cve, CVSSScore = Some baseScore, EPSSProbability = None,
                            CISAKnownExploit = None, Published = Some published\<rparr>
               in seedCVSS timeParse dict (Mapping.update cve meta metaMap)))"

text \<open>
  Lines 204 to 211.  \<open>v\<close> is the address of the variable \<open>epssScore\<close> of the \<open>range\<close>
  statement: every iteration stores the next element in it and takes its address.
\<close>

fun overlayEPSS_loop ::
  "addr \<Rightarrow> 'f epssScore list \<Rightarrow> ('f, 't) metaMap \<times> 'f heap \<Rightarrow> ('f, 't) metaMap \<times> 'f heap"
where
  "overlayEPSS_loop v [] (metaMap, heap) = (metaMap, heap)"
| "overlayEPSS_loop v (x # xs) (metaMap, heap) =
     (let heap = heap[v := x];
          cve = scoreCVE (heap ! v);
          (score, ok) = commaOk metaMap cve;
          score = (if \<not> ok then score\<lparr>CVE := cve\<rparr> else score);
          score = score\<lparr>EPSSProbability := Some v\<rparr>;
          metaMap = Mapping.update cve score metaMap
      in overlayEPSS_loop v xs (metaMap, heap))"

fun overlayEPSS ::
  "'f::zero epssScore list \<Rightarrow> ('f, 't) metaMap \<times> 'f heap \<Rightarrow> ('f, 't) metaMap \<times> 'f heap"
where
  "overlayEPSS epssScores (metaMap, heap) =
     (let v = length heap;
          heap = heap @ [\<lparr>scoreCVE = [], Score = 0\<rparr>]
      in overlayEPSS_loop v epssScores (metaMap, heap))"

text \<open>Lines 225 to 232, on the identifiers of \<open>catalog.Vulnerabilities\<close> in their order.\<close>

fun overlayCISA :: "string list \<Rightarrow> ('f, 't) metaMap \<Rightarrow> ('f, 't) metaMap" where
  "overlayCISA [] metaMap = metaMap"
| "overlayCISA (cveID # vulns) metaMap =
     (let (score, ok) = commaOk metaMap cveID;
          score = (if \<not> ok then score\<lparr>CVE := cveID\<rparr> else score);
          score = score\<lparr>CISAKnownExploit := Some True\<rparr>
      in overlayCISA vulns (Mapping.update cveID score metaMap))"

text \<open>Lines 235 to 240: every entry of the map is visited once and stored back.\<close>

definition fillKnownExploit :: "('f, 't) metaMap \<Rightarrow> ('f, 't) metaMap" where
  "fillKnownExploit metaMap =
     Mapping.map_values
       (\<lambda>cve meta. if CISAKnownExploit meta = None
                   then meta\<lparr>CISAKnownExploit := Some False\<rparr> else meta)
       metaMap"

section \<open>\<open>LoadCVEMeta\<close>\<close>

text \<open>
  The collaborators of \<open>LoadCVEMeta\<close> in one run: what each call returns.  The datastore
  is handed the records of the map (the order of the slice is the order of a \<open>range\<close> over
  the map, which Go leaves open) together with the heap their pointers reach into.
\<close>

type_synonym ('f, 't) snapshot = "('f, 't) metaMap \<times> 'f heap"

record ('f, 't) world =
  getNVDCVEFeedFiles :: "error + string list"
  LoadJSONDictionary :: "string list \<Rightarrow> error + (string \<times> 'f Schema) list"
  timeParse :: "string \<Rightarrow> 't option"
  ParseFloat :: "string \<Rightarrow> 'f option"
  Open :: "error + string list"
  ReadFile :: "error + string"
  Unmarshal :: "string \<Rightarrow> error + string list"
  InsertCVEMeta :: "('f, 't) snapshot \<Rightarrow> error option"

text \<open>
  \<open>LoadCVEMeta\<close> returns its error (\<open>None\<close> for \<open>nil\<close>) and the calls of
  \<open>ds.InsertCVEMeta\<close> it made, each with its argument.
\<close>

definition LoadCVEMeta ::
  "('f::zero, 't) world \<Rightarrow> error option \<times> ('f, 't) snapshot list"
where
  "LoadCVEMeta w =
     (case getNVDCVEFeedFiles w of
        Inl err \<Rightarrow> (Some (Wrapped ''get nvd cve feeds'' err), [])
      | Inr files \<Rightarrow>
     (case LoadJSONDictionary w files of
        Inl err \<Rightarrow> (Some err, [])
      | Inr dict \<Rightarrow>
     (case seedCVSS (timeParse w) dict Mapping.empty of
        Inl err \<Rightarrow> (Some err, [])
      | Inr metaMap \<Rightarrow>
     (case parseEPSSScoresFile (ParseFloat w) (Open w) of
        Inl err \<Rightarrow> (Some (Wrapped ''parse epss scores'' err), [])
      | Inr epssScores \<Rightarrow>
     (case overlayEPSS epssScores (metaMap, []) of
        (metaMap, heap) \<Rightarrow>
     (case ReadFile w of
        Inl err \<Rightarrow> (Some err, [])
      | Inr b \<Rightarrow>
     (case Unmarshal w b of
        Inl err \<Rightarrow>
          (Some (Wrapped ''unmarshal cisa known exploited vulnerabilities catalog'' err), [])
      | Inr catalog \<Rightarrow>
          let metaMap = overlayCISA catalog metaMap;
              metaMap = fillKnownExploit metaMap
          in if Mapping.is_empty metaMap then (None, [])
             else (case InsertCVEMeta w (metaMap, heap) of
                     Some err \<Rightarrow> (Some (Wrapped ''insert cve meta'' err), [(metaMap, heap)])
                   | None \<Rightarrow> (None, [(metaMap, heap)])))))))))"

text \<open>
  The merge alone, lines 176 to 240, on the three inputs it combines: the dictionary, the
  scores that \<open>parseEPSSScoresFile\<close> returned and the identifiers of the catalog.  Its result
  is the map as it stands before \<open>len(metaMap) == 0\<close> is tested.
\<close>

definition merge ::
  "(string \<Rightarrow> 't option) \<Rightarrow> (string \<times> 'f Schema) list \<Rightarrow> 'f::zero epssScore list \<Rightarrow> string list
     \<Rightarrow> error + ('f, 't) snapshot"
where
  "merge parseTime dict epssScores catalog =
     (case seedCVSS parseTime dict Mapping.empty of
        Inl err \<Rightarrow> Inl err
      | Inr metaMap \<Rightarrow>
          (case overlayEPSS epssScores (metaMap, []) of
             (metaMap, heap) \<Rightarrow> Inr (fillKnownExploit (overlayCISA catalog metaMap), heap)))"

text \<open>
  A stand-in for \<open>time.Parse(publishedDateFmt, \<cdot>)\<close> at concrete inputs
  (\<open>publishedDateFmt\<close> is declared in another file of the package): one date of the feed is
  accepted and read as year, month and day, every other string is rejected.
\<close>

definition timeParse_sample :: "string \<Rightarrow> (nat \<times> nat \<times> nat) option" where
  "timeParse_sample s = (if s = ''2021-01-01T00:00Z'' then Some (2021, 1, 1) else None)"

text \<open>
  The scenario of the specification: the severity feed has \<open>V-1\<close> with score 7.5, published
  on 2021-01-01, the probability feed has \<open>V-1\<close> with 0.42 and then \<open>V-2\<close> with 0.10, the
  catalog has \<open>V-2\<close>.  \<open>scenario_seed\<close> is the map after the loop over the dictionary,
  \<open>scenario_map\<close> and \<open>scenario_heap\<close> are what the merge makes of the three inputs.
\<close>

definition scenario_dict :: "(string \<times> rat Schema) list" where
  "scenario_dict =
     [(''V-1'', \<lparr>BaseMetricV3 = Some (75 / 10), PublishedDate = ''2021-01-01T00:00Z''\<rparr>)]"

definition scenario_epss :: "rat epssScore list" where
  "scenario_epss =
     [\<lparr>scoreCVE = ''V-1'', Score = 42 / 100\<rparr>, \<lparr>scoreCVE = ''V-2'', Score = 10 / 100\<rparr>]"

definition scenario_catalog :: "string list" where
  "scenario_catalog = [''V-2'']"

definition scenario_map :: "(rat, nat \<times> nat \<times> nat) metaMap" where
  "scenario_map =
     Mapping.update ''V-2''
       \<lparr>CVE = ''V-2'', CVSSScore = None, EPSSProbability = Some 0,
        CISAKnownExploit = Some True, Published = None\<rparr>
       (Mapping.update ''V-1''
          \<lparr>CVE = ''V-1'', CVSSScore = Some (75 / 10), EPSSProbability = Some 0,
           CISAKnownExploit = Some False, Published = Some (2021, 1, 1)\<rparr>
          Mapping.empty)"

definition scenario_seed :: "(rat, nat \<times> nat \<times> nat) metaMap" where
  "scenario_seed =
     Mapping.update ''V-1''
       \<lparr>CVE = ''V-1'', CVSSScore = Some (75 / 10), EPSSProbability = None,
        CISAKnownExploit = None, Published = Some (2021, 1, 1)\<rparr>
       Mapping.empty"

definition scenario_heap :: "rat heap" where
  "scenario_heap = [\<lparr>scoreCVE = ''V-2'', Score = 10 / 100\<rparr>]"

text \<open>
  A run in which every collaborator succeeds: the dictionary, the lines of the scores file
  and the identifiers of the catalog are given, the datastore accepts what it is handed.
\<close>

definition world_of ::
  "(string \<times> rat Schema) list \<Rightarrow> string list \<Rightarrow> string list \<Rightarrow> (rat, nat \<times> nat \<times> nat) world"
where
  "world_of dict ls catalog =
     \<lparr>getNVDCVEFeedFiles = Inr [''nvdcve-1.1-2021.json.gz''],
      LoadJSONDictionary = (\<lambda>files. Inr dict),
      timeParse = timeParse_sample,
      ParseFloat = parseFloat_sample,
      Open = Inr ls,
      ReadFile = Inr [],
      Unmarshal = (\<lambda>b. Inr catalog),
      InsertCVEMeta = (\<lambda>meta. None)\<rparr>"

section \<open>Properties of the reader\<close>

lemma readRecord_None: "readRecord c ls = (None, rest) \<Longrightarrow> rest = []"
  by (induction ls) (auto split: if_splits prod.splits)

lemma Read_epssReader:
  "Read (epssReader ls) =
     (case readRecord (Some (CHR ''#'')) ls of
        (None, rest) \<Rightarrow> (Inl EOF, epssReader rest)
      | (Some (Inl e), rest) \<Rightarrow> (Inl (ParseError e), epssReader rest)
      | (Some (Inr rec), rest) \<Rightarrow>
          (if length rec \<noteq> 3 then Inl (ParseError ErrFieldCount) else Inr rec, epssReader rest))"
  by (simp add: Read_def epssReader_def split: prod.splits option.splits sum.splits)

text \<open>
  With \<open>FieldsPerRecord = 3\<close> a record that \<open>Read\<close> returns without an error has three
  fields: the test \<open>len(rec) != 3\<close> of the loop never succeeds.
\<close>

lemma Read_three_fields:
  "Read (epssReader ls) = (Inr rec, r') \<Longrightarrow> length rec = 3"
  by (auto simp: Read_epssReader split: prod.splits option.splits sum.splits if_splits)

lemma Read_skip:
  "l = [] \<or> hd l = CHR ''#'' \<Longrightarrow> Read (epssReader (l # ls)) = Read (epssReader ls)"
  by (auto simp: Read_epssReader)

lemma Read_EndRecord:
  assumes "l \<noteq> []" "hd l \<noteq> CHR ''#''" "parseField [] l = EndRecord fs"
  shows "Read (epssReader (l # ls)) =
           (if length fs = 3 then Inr fs else Inl (ParseError ErrFieldCount), epssReader ls)"
  using assms by (simp add: Read_epssReader)

lemma Read_Invalid:
  assumes "l \<noteq> []" "hd l \<noteq> CHR ''#''" "parseField [] l = Invalid e"
  shows "Read (epssReader (l # ls)) = (Inl (ParseError e), epssReader ls)"
  using assms by (simp add: Read_epssReader)

lemma Read_lineError:
  assumes "l \<noteq> []" "hd l \<noteq> CHR ''#''" "lineError l = Some e"
  shows "Read (epssReader (l # ls)) = (Inl (ParseError e), epssReader ls)"
proof (cases "parseField [] l")
  case (EndRecord fs)
  with assms(3) have "length fs \<noteq> 3" and "e = ErrFieldCount"
    by (auto simp: lineError_def split: if_splits)
  with assms(1,2) EndRecord show ?thesis by (simp add: Read_EndRecord)
next
  case (OpenQuote fs f)
  with assms(3) show ?thesis by (simp add: lineError_def)
next
  case (Invalid e0)
  with assms(3) have "e0 = e" by (simp add: lineError_def)
  with assms(1,2) Invalid show ?thesis by (simp add: Read_Invalid)
qed

lemma Read_confined_record:
  assumes "h \<noteq> []" and "hd h \<noteq> CHR ''#''" and "confined h"
  shows "snd (Read (epssReader (h # ls))) = epssReader ls"
proof (cases "parseField [] h")
  case (EndRecord fs)
  with assms(1,2) show ?thesis by (simp add: Read_EndRecord)
next
  case (OpenQuote fs f)
  with assms show ?thesis by (simp add: confined_def)
next
  case (Invalid e0)
  with assms(1,2) show ?thesis by (simp add: Read_Invalid)
qed

lemma parseEPSSScoresFile_unfold:
  "parseEPSSScoresFile pf (Inr ls) = parseEPSSScoresFile_loop pf (snd (Read (epssReader ls))) []"
  by (simp add: parseEPSSScoresFile_def NewReader_def epssReader_def split: prod.splits)

lemma Read_EOF_again:
  assumes "Read r = (Inl EOF, r')"
  shows "Read r' = (Inl EOF, r')"
proof -
  obtain q rest where rr: "readRecord (Comment r) (input r) = (q, rest)"
    by (cases "readRecord (Comment r) (input r)")
  with assms have "q = None" and r': "r' = r\<lparr>input := rest\<rparr>"
    by (auto simp: Read_def split: option.splits sum.splits if_splits)
  with rr have "rest = []" by (simp add: readRecord_None)
  with r' show ?thesis by (simp add: Read_def)
qed

lemma records_tl: "records (snd (Read r)) = tl (records r)"
proof (cases "Read r")
  case (Pair res r')
  show ?thesis
  proof (cases "res = Inl EOF")
    case True
    with Pair have "Read r' = (Inl EOF, r')" by (simp add: Read_EOF_again)
    then have "records r' = []" by (simp add: records.simps [of r'])
    moreover from Pair True have "records r = []" by (simp add: records.simps [of r])
    ultimately show ?thesis using Pair by simp
  next
    case False
    with Pair show ?thesis
      by (cases res) (auto simp: records.simps [of r] split: read_error.splits)
  qed
qed

text \<open>
  The loop fails as soon as the reader has, anywhere before the end of the file, a record
  with an error or a record of three fields whose second field is not a number.
\<close>

lemma loop_fails:
  assumes "x \<in> set (records r)"
    and "(\<exists>e. x = Inl e) \<or> (\<exists>rec. x = Inr rec \<and> length rec = 3 \<and> pf (rec ! 1) = None)"
  shows "\<exists>e. parseEPSSScoresFile_loop pf r acc = Inl e"
  using assms(1)
proof (induction "length (input r)" arbitrary: r acc rule: less_induct)
  case less
  obtain res r' where R: "Read r = (res, r')" by (cases "Read r")
  show ?case
  proof (cases res)
    case (Inl re)
    show ?thesis
    proof (cases re)
      case EOF
      with R Inl less.prems show ?thesis by (simp add: records.simps [of r])
    next
      case (ParseError e0)
      with R Inl show ?thesis by (simp add: parseEPSSScoresFile_loop.simps [of pf r])
    qed
  next
    case (Inr rec)
    with R have shorter: "length (input r') < length (input r)"
      by (simp add: Read_length)
    from R Inr have recs: "records r = Inr rec # records r'"
      by (simp add: records.simps [of r])
    show ?thesis
    proof (cases "x = Inr rec")
      case True
      with assms(2) have "length rec = 3" and "pf (rec ! 1) = None" by auto
      with R Inr show ?thesis by (simp add: parseEPSSScoresFile_loop.simps [of pf r])
    next
      case False
      with recs less.prems have "x \<in> set (records r')" by simp
      with shorter have "\<And>acc. \<exists>e. parseEPSSScoresFile_loop pf r' acc = Inl e"
        by (rule less.hyps)
      with R Inr show ?thesis
        by (simp add: parseEPSSScoresFile_loop.simps [of pf r] split: option.splits)
    qed
  qed
qed

section \<open>Properties of the merge\<close>

lemma commaOk_Some: "Mapping.lookup m k = Some r \<Longrightarrow> commaOk m k = (r, True)"
  by (simp add: commaOk_def)

lemma commaOk_None: "Mapping.lookup m k = None \<Longrightarrow> commaOk m k = (zeroCVEMeta, False)"
  by (simp add: commaOk_def)

lemma overlayEPSS_loop_Cons:
  assumes "v < length h"
  shows "overlayEPSS_loop v (x # xs) (m, h) =
           overlayEPSS_loop v xs
             (Mapping.update (scoreCVE x)
                ((case Mapping.lookup m (scoreCVE x) of
                    None \<Rightarrow> zeroCVEMeta\<lparr>CVE := scoreCVE x\<rparr> | Some r \<Rightarrow> r)
                 \<lparr>EPSSProbability := Some v\<rparr>) m,
              h[v := x])"
  using assms by (simp add: commaOk_def Let_def split: option.splits)

lemma overlayCISA_Cons:
  "overlayCISA (x # xs) m =
     overlayCISA xs
       (Mapping.update x
          ((case Mapping.lookup m x of None \<Rightarrow> zeroCVEMeta\<lparr>CVE := x\<rparr> | Some r \<Rightarrow> r)
           \<lparr>CISAKnownExploit := Some True\<rparr>) m)"
  by (simp add: commaOk_def Let_def split: option.splits)

text \<open>
  What is stored under a key after each overlay, in terms of what was stored before.
\<close>

lemma overlayEPSS_loop_lookup:
  assumes "v < length h"
  shows "Mapping.lookup (fst (overlayEPSS_loop v es (m, h))) k =
           (if k \<in> scoreCVE ` set es
            then Some ((case Mapping.lookup m k of None \<Rightarrow> zeroCVEMeta\<lparr>CVE := k\<rparr> | Some r \<Rightarrow> r)
                        \<lparr>EPSSProbability := Some v\<rparr>)
            else Mapping.lookup m k)"
  using assms
proof (induction es arbitrary: m h)
  case Nil
  then show ?case by simp
next
  case (Cons x xs)
  then show ?case
    by (auto simp: overlayEPSS_loop_Cons Mapping.lookup_update' simp del: overlayEPSS_loop.simps
        split: option.splits)
qed

lemma overlayEPSS_loop_heap:
  assumes "v < length h"
  shows "snd (overlayEPSS_loop v es (m, h)) = (if es = [] then h else h[v := last es])"
  using assms
proof (induction es arbitrary: m h)
  case Nil
  then show ?case by simp
next
  case (Cons x xs)
  then show ?case
    by (auto simp: overlayEPSS_loop_Cons simp del: overlayEPSS_loop.simps)
qed

lemma overlayEPSS_lookup:
  "Mapping.lookup (fst (overlayEPSS es (m, h))) k =
     (if k \<in> scoreCVE ` set es
      then Some ((case Mapping.lookup m k of None \<Rightarrow> zeroCVEMeta\<lparr>CVE := k\<rparr> | Some r \<Rightarrow> r)
                  \<lparr>EPSSProbability := Some (length h)\<rparr>)
      else Mapping.lookup m k)"
  by (simp add: Let_def overlayEPSS_loop_lookup)

lemma overlayEPSS_heap:
  "snd (overlayEPSS es (m, h)) =
     h @ [if es = [] then \<lparr>scoreCVE = [], Score = 0\<rparr> else last es]"
  by (simp add: Let_def overlayEPSS_loop_heap)

lemma overlayCISA_lookup:
  "Mapping.lookup (overlayCISA ids m) k =
     (if k \<in> set ids
      then Some ((case Mapping.lookup m k of None \<Rightarrow> zeroCVEMeta\<lparr>CVE := k\<rparr> | Some r \<Rightarrow> r)
                  \<lparr>CISAKnownExploit := Some True\<rparr>)
      else Mapping.lookup m k)"
proof (induction ids arbitrary: m)
  case Nil
  then show ?case by simp
next
  case (Cons x xs)
  then show ?case
    by (auto simp: overlayCISA_Cons Mapping.lookup_update' simp del: overlayCISA.simps
        split: option.splits)
qed

lemma fillKnownExploit_lookup:
  assumes "Mapping.lookup m k = Some r"
  shows "Mapping.lookup (fillKnownExploit m) k =
           Some (if CISAKnownExploit r = None then r\<lparr>CISAKnownExploit := Some False\<rparr> else r)"
  using assms by (simp add: fillKnownExploit_def Mapping.lookup_map_values)

lemma map_values_empty: "Mapping.map_values f Mapping.empty = Mapping.empty"
  by (rule mapping_eqI) (simp add: Mapping.lookup_map_values)

lemma seedCVSS_lookup:
  assumes "seedCVSS pt dict m = Inr m'" and "Mapping.lookup m' k = Some r"
  shows "Mapping.lookup m k = Some r \<or>
         (k \<in> fst ` set dict \<and> CVE r = k \<and> EPSSProbability r = None
          \<and> CISAKnownExploit r = None)"
  using assms
proof (induction dict arbitrary: m)
  case Nil
  then show ?case by simp
next
  case (Cons entry dict)
  obtain cve schema where entry: "entry = (cve, schema)" by (cases entry)
  show ?case
  proof (cases "BaseMetricV3 schema")
    case None
    with Cons.prems entry have "seedCVSS pt dict m = Inr m'" by simp
    from Cons.IH [OF this Cons.prems(2)] show ?thesis by auto
  next
    case (Some baseScore)
    show ?thesis
    proof (cases "pt (PublishedDate schema)")
      case None
      with Cons.prems entry Some show ?thesis by simp
    next
      case (Some published)
      define meta where
        "meta = \<lparr>CVE = cve, CVSSScore = Some baseScore, EPSSProbability = None,
                  CISAKnownExploit = None, Published = Some published\<rparr>"
      from Cons.prems entry \<open>BaseMetricV3 schema = Some baseScore\<close> Some
      have "seedCVSS pt dict (Mapping.update cve meta m) = Inr m'"
        by (simp add: meta_def)
      from Cons.IH [OF this Cons.prems(2)]
      have "Mapping.lookup (Mapping.update cve meta m) k = Some r \<or>
            (k \<in> fst ` set dict \<and> CVE r = k \<and> EPSSProbability r = None
             \<and> CISAKnownExploit r = None)" .
      then show ?thesis
        using entry by (auto simp: Mapping.lookup_update' meta_def split: if_splits)
    qed
  qed
qed

lemma seedCVSS_bad_date:
  assumes "(cve, schema) \<in> set dict" and "BaseMetricV3 schema = Some baseScore"
    and "pt (PublishedDate schema) = None"
  shows "seedCVSS pt dict m = Inl (Wrapped ''parse published_date'' ParseTimeError)"
  using assms(1)
proof (induction dict arbitrary: m)
  case Nil
  then show ?case by simp
next
  case (Cons entry dict)
  show ?case
  proof (cases "entry = (cve, schema)")
    case True
    with assms(2,3) show ?thesis by simp
  next
    case False
    with Cons.prems have "(cve, schema) \<in> set dict" by simp
    then have "\<And>m. seedCVSS pt dict m = Inl (Wrapped ''parse published_date'' ParseTimeError)"
      by (rule Cons.IH)
    then show ?thesis
      by (cases entry) (simp split: option.splits)
  qed
qed

lemma seedCVSS_no_V3:
  "list_all (\<lambda>entry. BaseMetricV3 (snd entry) = None) dict \<Longrightarrow> seedCVSS pt dict m = Inr m"
  by (induction dict arbitrary: m) auto

lemma merge_Inr:
  assumes "merge pt dict es cat = Inr (m, h)"
  obtains m0 where "seedCVSS pt dict Mapping.empty = Inr m0"
    and "m = fillKnownExploit
               (overlayCISA cat
                  (fst (overlayEPSS_loop 0 es (m0, [\<lparr>scoreCVE = [], Score = 0\<rparr>]))))"
    and "h = snd (overlayEPSS_loop 0 es (m0, [\<lparr>scoreCVE = [], Score = 0\<rparr>]))"
  using assms by (auto simp: merge_def split: sum.splits prod.splits)

lemma merge_lookup:
  assumes "merge pt dict es cat = Inr (m, h)" and "Mapping.lookup m k = Some r"
  shows "CVE r = k"
    and "CISAKnownExploit r = Some (k \<in> set cat)"
    and "k \<in> fst ` set dict \<or> k \<in> scoreCVE ` set es \<or> k \<in> set cat"
proof -
  from assms(1) obtain m0 where seed: "seedCVSS pt dict Mapping.empty = Inr m0"
    and m: "m = fillKnownExploit
               (overlayCISA cat
                  (fst (overlayEPSS_loop 0 es (m0, [\<lparr>scoreCVE = [], Score = 0\<rparr>]))))"
    by (rule merge_Inr)
  have seeded: "k \<in> fst ` set dict \<and> CVE r0 = k \<and> CISAKnownExploit r0 = None"
    if "Mapping.lookup m0 k = Some r0" for r0
    using seedCVSS_lookup [OF seed that] by simp
  let ?m1 = "fst (overlayEPSS_loop 0 es (m0, [\<lparr>scoreCVE = [], Score = 0\<rparr>]))"
  have l1: "Mapping.lookup ?m1 k =
           (if k \<in> scoreCVE ` set es
            then Some ((case Mapping.lookup m0 k of None \<Rightarrow> zeroCVEMeta\<lparr>CVE := k\<rparr> | Some r \<Rightarrow> r)
                        \<lparr>EPSSProbability := Some 0\<rparr>)
            else Mapping.lookup m0 k)"
    by (rule overlayEPSS_loop_lookup) simp
  have prob: "(k \<in> fst ` set dict \<or> k \<in> scoreCVE ` set es) \<and> CVE r1 = k
              \<and> CISAKnownExploit r1 = None"
    if "Mapping.lookup ?m1 k = Some r1" for r1
    using that seeded unfolding l1
    by (cases "Mapping.lookup m0 k") (auto simp: zeroCVEMeta_def split: if_splits)
  let ?m2 = "overlayCISA cat ?m1"
  have exploit: "(k \<in> fst ` set dict \<or> k \<in> scoreCVE ` set es \<or> k \<in> set cat) \<and> CVE r2 = k
              \<and> CISAKnownExploit r2 = (if k \<in> set cat then Some True else None)"
    if "Mapping.lookup ?m2 k = Some r2" for r2
    using that prob unfolding overlayCISA_lookup
    by (cases "Mapping.lookup ?m1 k") (auto simp: zeroCVEMeta_def split: if_splits)
  from assms(2) m obtain r2 where r2: "Mapping.lookup ?m2 k = Some r2"
    and r: "r = (if CISAKnownExploit r2 = None then r2\<lparr>CISAKnownExploit := Some False\<rparr> else r2)"
    by (auto simp: fillKnownExploit_def Mapping.lookup_map_values)
  from exploit [OF r2] r show "CVE r = k" by (auto split: if_splits)
  from exploit [OF r2] r show "CISAKnownExploit r = Some (k \<in> set cat)"
    by (auto split: if_splits)
  from exploit [OF r2] show "k \<in> fst ` set dict \<or> k \<in> scoreCVE ` set es \<or> k \<in> set cat"
    by simp
qed

lemma merge_keys:
  assumes "merge pt dict es cat = Inr (m, h)"
  shows "scoreCVE ` set es \<union> set cat \<subseteq> Mapping.keys m"
proof -
  from assms obtain m0 where
    m: "m = fillKnownExploit
               (overlayCISA cat
                  (fst (overlayEPSS_loop 0 es (m0, [\<lparr>scoreCVE = [], Score = 0\<rparr>]))))"
    by (rule merge_Inr)
  let ?m1 = "fst (overlayEPSS_loop 0 es (m0, [\<lparr>scoreCVE = [], Score = 0\<rparr>]))"
  have l1: "\<And>k. Mapping.lookup ?m1 k =
           (if k \<in> scoreCVE ` set es
            then Some ((case Mapping.lookup m0 k of None \<Rightarrow> zeroCVEMeta\<lparr>CVE := k\<rparr> | Some r \<Rightarrow> r)
                        \<lparr>EPSSProbability := Some 0\<rparr>)
            else Mapping.lookup m0 k)"
    by (rule overlayEPSS_loop_lookup) simp
  show ?thesis
    unfolding m
    by (auto simp: Mapping.keys_dom_lookup fillKnownExploit_def Mapping.lookup_map_values
        overlayCISA_lookup l1 dom_def)
qed

text \<open>
  Every record that the probability overlay touched reads, through its pointer, the score
  of the last pair of the whole sequence: the pointers all lead to the one variable of the
  \<open>range\<close> statement, which holds the last element when the loop is over.
\<close>

lemma merge_probability_alias:
  assumes "merge pt dict es cat = Inr (m, h)" and "k \<in> scoreCVE ` set es"
  shows "\<exists>r. Mapping.lookup m k = Some r \<and> EPSSProbabilityValue h r = Some (Score (last es))"
proof -
  from assms(1) obtain m0 where
    m: "m = fillKnownExploit
               (overlayCISA cat
                  (fst (overlayEPSS_loop 0 es (m0, [\<lparr>scoreCVE = [], Score = 0\<rparr>]))))"
    and h: "h = snd (overlayEPSS_loop 0 es (m0, [\<lparr>scoreCVE = [], Score = 0\<rparr>]))"
    by (rule merge_Inr)
  from assms(2) have ne: "es \<noteq> []" by auto
  with h have heap: "h = [last es]" by (simp add: overlayEPSS_loop_heap)
  let ?m1 = "fst (overlayEPSS_loop 0 es (m0, [\<lparr>scoreCVE = [], Score = 0\<rparr>]))"
  have "Mapping.lookup ?m1 k =
           (if k \<in> scoreCVE ` set es
            then Some ((case Mapping.lookup m0 k of None \<Rightarrow> zeroCVEMeta\<lparr>CVE := k\<rparr> | Some r \<Rightarrow> r)
                        \<lparr>EPSSProbability := Some 0\<rparr>)
            else Mapping.lookup m0 k)"
    by (rule overlayEPSS_loop_lookup) simp
  with assms(2) obtain r1 where "Mapping.lookup ?m1 k = Some r1" and "EPSSProbability r1 = Some 0"
    by simp
  then have "\<exists>r2. Mapping.lookup (overlayCISA cat ?m1) k = Some r2
            \<and> EPSSProbability r2 = Some 0"
    by (auto simp: overlayCISA_lookup)
  then obtain r2 where r2: "Mapping.lookup (overlayCISA cat ?m1) k = Some r2"
    and p2: "EPSSProbability r2 = Some 0"
    by blast
  from r2 have "Mapping.lookup m k =
      Some (if CISAKnownExploit r2 = None then r2\<lparr>CISAKnownExploit := Some False\<rparr> else r2)"
    unfolding m by (rule fillKnownExploit_lookup)
  moreover from p2 have "EPSSProbability
      (if CISAKnownExploit r2 = None then r2\<lparr>CISAKnownExploit := Some False\<rparr> else r2) = Some 0"
    by simp
  ultimately show ?thesis using heap by (simp add: EPSSProbabilityValue_def)
qed

text \<open>
  What \<open>LoadCVEMeta\<close> hands to the datastore is the result of \<open>merge\<close> on the inputs of
  the run.
\<close>

lemma LoadCVEMeta_inserts_merge:
  assumes "s \<in> set (snd (LoadCVEMeta w))"
  shows "\<exists>files dict es b cat.
           getNVDCVEFeedFiles w = Inr files \<and> LoadJSONDictionary w files = Inr dict
           \<and> parseEPSSScoresFile (ParseFloat w) (Open w) = Inr es
           \<and> ReadFile w = Inr b \<and> Unmarshal w b = Inr cat
           \<and> merge (timeParse w) dict es cat = Inr s"
  using assms
  by (auto simp: LoadCVEMeta_def merge_def Let_def
      split: sum.splits prod.splits if_splits option.splits)

lemma seed_scenario: "seedCVSS timeParse_sample scenario_dict Mapping.empty = Inr scenario_seed"
  by (simp add: scenario_dict_def scenario_seed_def timeParse_sample_def)

lemma merge_scenario:
  "merge timeParse_sample scenario_dict scenario_epss scenario_catalog
     = Inr (scenario_map, scenario_heap)"
  by (simp add: merge_def scenario_dict_def scenario_epss_def scenario_catalog_def
      timeParse_sample_def commaOk_def zeroCVEMeta_def Let_def fillKnownExploit_def
      scenario_map_def scenario_heap_def Mapping.map_values_update Mapping.update_update
      map_values_empty)

section \<open>The claims\<close>

text \<open>
  C1.  The claim: a record after the header whose number of fields is not 3 is skipped and
  the parse goes on.  The loop has the test \<open>len(rec) != 3\<close> with \<open>continue\<close> for this, but
  the reader was given \<open>FieldsPerRecord = 3\<close> and returns \<open>ErrFieldCount\<close> for such a
  record, which the loop returns before it reaches the test (\<open>Read_three_fields\<close>).  On
  the file below the row of two fields makes the whole parse fail; the rows around it are
  well formed.
\<close>

theorem C1_short_row_aborts:
  "parseEPSSScoresFile parseFloat_sample
     (Inr [''cve,epss,percentile'', ''CVE-1,0.5,0.9'', ''CVE-2,0.25'', ''CVE-3,0.25,0.1''])
   = Inl (CSV ErrFieldCount)"
  by code_simp

text \<open>
  C2.  When the merge has produced the map, every record in it has \<open>CISAKnownExploit\<close> set:
  to true when its identifier is in the catalog, to false when it is not; and every
  identifier of the catalog has a record.
\<close>

theorem C2_known_exploited_set:
  assumes "merge pt dict es cat = Inr (m, h)" and "Mapping.lookup m k = Some r"
  shows "CISAKnownExploit r = Some (k \<in> set cat) \<and> set cat \<subseteq> Mapping.keys m"
proof
  from assms show "CISAKnownExploit r = Some (k \<in> set cat)" by (rule merge_lookup(2))
  from assms(1) have "scoreCVE ` set es \<union> set cat \<subseteq> Mapping.keys m" by (rule merge_keys)
  then show "set cat \<subseteq> Mapping.keys m" by simp
qed

text \<open>
  C2 at the scenario of the specification, for the record of \<open>V-1\<close>.
\<close>

theorem C2_known_exploited_set_witness:
  "merge timeParse_sample scenario_dict scenario_epss scenario_catalog
     = Inr (scenario_map, scenario_heap)
   \<and> Mapping.lookup scenario_map ''V-1''
       = Some \<lparr>CVE = ''V-1'', CVSSScore = Some (75 / 10), EPSSProbability = Some 0,
                CISAKnownExploit = Some False, Published = Some (2021, 1, 1)\<rparr>
   \<and> CISAKnownExploit \<lparr>CVE = ''V-1'', CVSSScore = Some (75 / 10 :: rat), EPSSProbability = Some 0,
                CISAKnownExploit = Some False, Published = Some (2021 :: nat, 1 :: nat, 1 :: nat)\<rparr>
       = Some (''V-1'' \<in> set scenario_catalog)
   \<and> set scenario_catalog \<subseteq> Mapping.keys scenario_map"
proof -
  have h1: "merge timeParse_sample scenario_dict scenario_epss scenario_catalog
     = Inr (scenario_map, scenario_heap)" by (rule merge_scenario)
  have h2: "Mapping.lookup scenario_map ''V-1''
       = Some \<lparr>CVE = ''V-1'', CVSSScore = Some (75 / 10), EPSSProbability = Some 0,
                CISAKnownExploit = Some False, Published = Some (2021, 1, 1)\<rparr>"
    by (simp add: scenario_map_def)
  from h1 h2 C2_known_exploited_set [OF h1 h2] show ?thesis by blast
qed

text \<open>
  C3.  The claim gives the record of \<open>V-1\<close> no exploit probability, although the
  probability feed has \<open>V-1\<close>.  The merge sets the field: the record of \<open>V-1\<close> has a
  pointer, and a value behind it.
\<close>

theorem C3_scenario_counterexample:
  "merge timeParse_sample scenario_dict scenario_epss scenario_catalog
     = Inr (scenario_map, scenario_heap)
   \<and> map_option EPSSProbability (Mapping.lookup scenario_map ''V-1'') = Some (Some 0)
   \<and> map_option (EPSSProbabilityValue scenario_heap) (Mapping.lookup scenario_map ''V-1'')
       \<noteq> Some None"
  by (simp add: merge_scenario) (simp add: scenario_map_def scenario_heap_def EPSSProbabilityValue_def)

text \<open>
  C3, amended: on the inputs of the scenario the merge gives exactly the records of \<open>V-1\<close>
  and \<open>V-2\<close>; \<open>V-1\<close> has score 7.5, the publication date, an exploit probability that is
  set, and known-exploited false; \<open>V-2\<close> has neither score nor date, exploit probability
  0.10 and known-exploited true.
\<close>

theorem C3_scenario_amended:
  "\<exists>m h r1 r2.
     merge timeParse_sample scenario_dict scenario_epss scenario_catalog = Inr (m, h)
     \<and> Mapping.keys m = {''V-1'', ''V-2''}
     \<and> Mapping.lookup m ''V-1'' = Some r1
     \<and> CVE r1 = ''V-1'' \<and> CVSSScore r1 = Some (75 / 10) \<and> Published r1 = Some (2021, 1, 1)
     \<and> EPSSProbabilityValue h r1 \<noteq> None \<and> CISAKnownExploit r1 = Some False
     \<and> Mapping.lookup m ''V-2'' = Some r2
     \<and> CVE r2 = ''V-2'' \<and> CVSSScore r2 = None \<and> Published r2 = None
     \<and> EPSSProbabilityValue h r2 = Some (10 / 100) \<and> CISAKnownExploit r2 = Some True"
proof -
  have "Mapping.keys scenario_map = {''V-1'', ''V-2''}"
    by (auto simp: scenario_map_def)
  then show ?thesis
    by (simp add: merge_scenario)
       (simp add: scenario_map_def scenario_heap_def EPSSProbabilityValue_def)
qed

text \<open>
  C4.  If the file has, after its first record (the header, which is read and dropped), a
  record of three fields whose second field \<open>parseFloat\<close> rejects, then
  \<open>parseEPSSScoresFile\<close> returns an error, and so no scores at all, whatever the records
  before and after it are.
\<close>

theorem C4_bad_score_aborts:
  assumes "Inr rec \<in> set (tl (records (epssReader ls)))"
    and "length rec = 3" and "parseFloat (rec ! 1) = None"
  shows "\<exists>e. parseEPSSScoresFile parseFloat (Inr ls) = Inl e"
proof -
  from assms(1) have "Inr rec \<in> set (records (snd (Read (epssReader ls))))"
    by (simp add: records_tl)
  moreover from assms(2,3)
  have "(\<exists>e. (Inr rec :: csv_error + string list) = Inl e) \<or>
        (\<exists>rec'. (Inr rec :: csv_error + string list) = Inr rec' \<and> length rec' = 3 \<and> parseFloat (rec' ! 1) = None)"
    by simp
  ultimately have "\<exists>e. parseEPSSScoresFile_loop parseFloat (snd (Read (epssReader ls))) [] = Inl e"
    by (rule loop_fails)
  then show ?thesis by (simp add: parseEPSSScoresFile_unfold)
qed

text \<open>
  C4 on a file whose third line has \<open>abc\<close> for a score, between two good rows.
\<close>

theorem C4_bad_score_aborts_witness:
  "Inr [''CVE-2'', ''abc'', ''0.9'']
     \<in> set (tl (records (epssReader
          [''cve,epss,percentile'', ''CVE-1,0.5,0.9'', ''CVE-2,abc,0.9'', ''CVE-3,0.25,0.1''])))
   \<and> length [''CVE-2'', ''abc'', ''0.9''] = 3
   \<and> parseFloat_sample ([''CVE-2'', ''abc'', ''0.9''] ! 1) = None
   \<and> (\<exists>e. parseEPSSScoresFile parseFloat_sample
        (Inr [''cve,epss,percentile'', ''CVE-1,0.5,0.9'', ''CVE-2,abc,0.9'', ''CVE-3,0.25,0.1''])
        = Inl e)"
proof -
  have h1: "Inr [''CVE-2'', ''abc'', ''0.9'']
     \<in> set (tl (records (epssReader
          [''cve,epss,percentile'', ''CVE-1,0.5,0.9'', ''CVE-2,abc,0.9'', ''CVE-3,0.25,0.1''])))"
    by code_simp
  have h2: "length [''CVE-2'', ''abc'', ''0.9''] = 3" by simp
  have h3: "parseFloat_sample ([''CVE-2'', ''abc'', ''0.9''] ! 1) = None"
    by (simp add: parseFloat_sample_def)
  from h1 h2 h3 C4_bad_score_aborts [where parseFloat = parseFloat_sample, OF h1 h2 h3] show ?thesis by blast
qed

text \<open>
  C5.  If the dictionary was loaded and has an entry with a version 3 block whose
  publication date does not parse, \<open>LoadCVEMeta\<close> returns the error of the date and never
  calls the datastore: the entry is not skipped, whatever the other entries are.
\<close>

theorem C5_bad_date_aborts:
  assumes "getNVDCVEFeedFiles w = Inr files" and "LoadJSONDictionary w files = Inr dict"
    and "(cve, schema) \<in> set dict" and "BaseMetricV3 schema = Some baseScore"
    and "timeParse w (PublishedDate schema) = None"
  shows "LoadCVEMeta w = (Some (Wrapped ''parse published_date'' ParseTimeError), [])"
proof -
  from assms(3-5)
  have "seedCVSS (timeParse w) dict Mapping.empty
          = Inl (Wrapped ''parse published_date'' ParseTimeError)"
    by (rule seedCVSS_bad_date)
  with assms(1,2) show ?thesis by (simp add: LoadCVEMeta_def)
qed

text \<open>
  C5 on a dictionary with a good entry and one whose date is in another format.
\<close>

theorem C5_bad_date_aborts_witness:
  "getNVDCVEFeedFiles
      (world_of [(''V-1'', \<lparr>BaseMetricV3 = Some (75 / 10), PublishedDate = ''2021-01-01T00:00Z''\<rparr>),
                 (''V-2'', \<lparr>BaseMetricV3 = Some (98 / 10), PublishedDate = ''01/02/2021''\<rparr>)]
         [''cve,epss,percentile''] [])
     = Inr [''nvdcve-1.1-2021.json.gz'']
   \<and> timeParse_sample ''01/02/2021'' = None
   \<and> LoadCVEMeta
        (world_of [(''V-1'', \<lparr>BaseMetricV3 = Some (75 / 10), PublishedDate = ''2021-01-01T00:00Z''\<rparr>),
                   (''V-2'', \<lparr>BaseMetricV3 = Some (98 / 10), PublishedDate = ''01/02/2021''\<rparr>)]
           [''cve,epss,percentile''] [])
     = (Some (Wrapped ''parse published_date'' ParseTimeError), [])"
proof -
  let ?dict = "[(''V-1'', \<lparr>BaseMetricV3 = Some (75 / 10 :: rat), PublishedDate = ''2021-01-01T00:00Z''\<rparr>),
                 (''V-2'', \<lparr>BaseMetricV3 = Some (98 / 10), PublishedDate = ''01/02/2021''\<rparr>)]"
  let ?w = "world_of ?dict [''cve,epss,percentile''] []"
  have h1: "getNVDCVEFeedFiles ?w = Inr [''nvdcve-1.1-2021.json.gz'']"
    by (simp add: world_of_def)
  have h2: "LoadJSONDictionary ?w [''nvdcve-1.1-2021.json.gz''] = Inr ?dict"
    by (simp add: world_of_def)
  have h3: "(''V-2'', \<lparr>BaseMetricV3 = Some (98 / 10 :: rat), PublishedDate = ''01/02/2021''\<rparr>) \<in> set ?dict"
    by simp
  have h4: "BaseMetricV3 \<lparr>BaseMetricV3 = Some (98 / 10 :: rat), PublishedDate = ''01/02/2021''\<rparr>
              = Some (98 / 10)" by simp
  have h5: "timeParse ?w (PublishedDate \<lparr>BaseMetricV3 = Some (98 / 10 :: rat), PublishedDate = ''01/02/2021''\<rparr>) = None"
    by (simp add: world_of_def timeParse_sample_def)
  have h6: "timeParse_sample ''01/02/2021'' = None" by (simp add: timeParse_sample_def)
  from h1 h6 C5_bad_date_aborts [OF h1 h2 h3 h4 h5] show ?thesis by blast
qed

text \<open>
  C6.  The claim: with several pairs for one identifier, its record ends with the score of
  the last pair for that identifier.  Every record holds the address of the one variable of
  the \<open>range\<close> statement, so what it reads in the end is the score of the last pair of the
  sequence, whatever its identifier.  With \<open>(V-1, 0.2)\<close>, \<open>(V-1, 0.9)\<close>, \<open>(V-2, 0.5)\<close>
  the record of \<open>V-1\<close> reads 0.5, not 0.9.
\<close>

theorem C6_last_pair_of_sequence:
  "merge timeParse_sample []
     [\<lparr>scoreCVE = ''V-1'', Score = 2 / 10 :: rat\<rparr>, \<lparr>scoreCVE = ''V-1'', Score = 9 / 10\<rparr>,
      \<lparr>scoreCVE = ''V-2'', Score = 5 / 10\<rparr>] []
   = Inr (Mapping.update ''V-2''
            \<lparr>CVE = ''V-2'', CVSSScore = None, EPSSProbability = Some 0,
             CISAKnownExploit = Some False, Published = None\<rparr>
            (Mapping.update ''V-1''
               \<lparr>CVE = ''V-1'', CVSSScore = None, EPSSProbability = Some 0,
                CISAKnownExploit = Some False, Published = None\<rparr>
               Mapping.empty),
          [\<lparr>scoreCVE = ''V-2'', Score = 5 / 10\<rparr>])
   \<and> EPSSProbabilityValue [\<lparr>scoreCVE = ''V-2'', Score = 5 / 10 :: rat\<rparr>]
        (\<lparr>CVE = ''V-1'', CVSSScore = None, EPSSProbability = Some 0,
          CISAKnownExploit = Some False, Published = None\<rparr>
         :: (rat, nat \<times> nat \<times> nat) CVEMeta)
     = Some (5 / 10)"
  by (simp add: merge_def commaOk_def zeroCVEMeta_def Let_def fillKnownExploit_def
      Mapping.map_values_update Mapping.update_update map_values_empty EPSSProbabilityValue_def)

text \<open>
  C7.  For a record \<open>r\<close> that is in the map under \<open>k\<close>, whatever the scores and the
  catalog are: the probability overlay leaves its identifier, score, date and
  known-exploited field as they are; the catalog overlay and the default fill leave its
  identifier, score, date and probability pointer as they are (they do not touch the heap,
  so the probability read through the pointer stays as well).  For an identifier \<open>k'\<close>
  that is not in the map, whatever else the map holds: the lookup gives the zero record and
  \<open>ok = false\<close>, and after an overlay that meets \<open>k'\<close> its record has the identifier and
  the field of that overlay, and nothing else.  What is stored under an identifier \<open>j\<close>
  that an overlay does not meet is what was stored before, and the default fill adds no
  record.
\<close>

theorem C7_overlay_frame:
  "(Mapping.lookup m k = Some r \<longrightarrow>
      (\<exists>r'. Mapping.lookup (fst (overlayEPSS es (m, h))) k = Some r'
            \<and> CVE r' = CVE r \<and> CVSSScore r' = CVSSScore r \<and> Published r' = Published r
            \<and> CISAKnownExploit r' = CISAKnownExploit r)
    \<and> (\<exists>r'. Mapping.lookup (overlayCISA ids m) k = Some r'
            \<and> CVE r' = CVE r \<and> CVSSScore r' = CVSSScore r \<and> Published r' = Published r
            \<and> EPSSProbability r' = EPSSProbability r)
    \<and> (\<exists>r'. Mapping.lookup (fillKnownExploit m) k = Some r'
            \<and> CVE r' = CVE r \<and> CVSSScore r' = CVSSScore r \<and> Published r' = Published r
            \<and> EPSSProbability r' = EPSSProbability r))
   \<and> (Mapping.lookup m k' = None \<longrightarrow> commaOk m k' = (zeroCVEMeta, False))
   \<and> (Mapping.lookup m k' = None \<and> k' \<in> scoreCVE ` set es \<longrightarrow>
        Mapping.lookup (fst (overlayEPSS es (m, h))) k'
           = Some \<lparr>CVE = k', CVSSScore = None, EPSSProbability = Some (length h),
                    CISAKnownExploit = None, Published = None\<rparr>)
   \<and> (Mapping.lookup m k' = None \<and> k' \<in> set ids \<longrightarrow>
        Mapping.lookup (overlayCISA ids m) k'
           = Some \<lparr>CVE = k', CVSSScore = None, EPSSProbability = None,
                    CISAKnownExploit = Some True, Published = None\<rparr>)
   \<and> (j \<notin> scoreCVE ` set es \<longrightarrow>
        Mapping.lookup (fst (overlayEPSS es (m, h))) j = Mapping.lookup m j)
   \<and> (j \<notin> set ids \<longrightarrow> Mapping.lookup (overlayCISA ids m) j = Mapping.lookup m j)
   \<and> (Mapping.lookup m j = None \<longrightarrow> Mapping.lookup (fillKnownExploit m) j = None)"
proof (intro conjI impI)
  assume r: "Mapping.lookup m k = Some r"
  show "\<exists>r'. Mapping.lookup (fst (overlayEPSS es (m, h))) k = Some r'
            \<and> CVE r' = CVE r \<and> CVSSScore r' = CVSSScore r \<and> Published r' = Published r
            \<and> CISAKnownExploit r' = CISAKnownExploit r"
    using r by (simp add: overlayEPSS_lookup del: overlayEPSS.simps)
  show "\<exists>r'. Mapping.lookup (overlayCISA ids m) k = Some r'
            \<and> CVE r' = CVE r \<and> CVSSScore r' = CVSSScore r \<and> Published r' = Published r
            \<and> EPSSProbability r' = EPSSProbability r"
    using r by (simp add: overlayCISA_lookup)
  show "\<exists>r'. Mapping.lookup (fillKnownExploit m) k = Some r'
            \<and> CVE r' = CVE r \<and> CVSSScore r' = CVSSScore r \<and> Published r' = Published r
            \<and> EPSSProbability r' = EPSSProbability r"
    using r by (simp add: fillKnownExploit_lookup)
next
  assume "Mapping.lookup m k' = None"
  then show "commaOk m k' = (zeroCVEMeta, False)" by (rule commaOk_None)
next
  assume "Mapping.lookup m k' = None \<and> k' \<in> scoreCVE ` set es"
  then show "Mapping.lookup (fst (overlayEPSS es (m, h))) k'
           = Some \<lparr>CVE = k', CVSSScore = None, EPSSProbability = Some (length h),
                    CISAKnownExploit = None, Published = None\<rparr>"
    by (simp add: overlayEPSS_lookup zeroCVEMeta_def del: overlayEPSS.simps)
next
  assume "Mapping.lookup m k' = None \<and> k' \<in> set ids"
  then show "Mapping.lookup (overlayCISA ids m) k'
           = Some \<lparr>CVE = k', CVSSScore = None, EPSSProbability = None,
                    CISAKnownExploit = Some True, Published = None\<rparr>"
    by (simp add: overlayCISA_lookup zeroCVEMeta_def)
next
  assume "j \<notin> scoreCVE ` set es"
  then show "Mapping.lookup (fst (overlayEPSS es (m, h))) j = Mapping.lookup m j"
    by (simp add: overlayEPSS_lookup del: overlayEPSS.simps)
next
  assume "j \<notin> set ids"
  then show "Mapping.lookup (overlayCISA ids m) j = Mapping.lookup m j"
    by (simp add: overlayCISA_lookup)
next
  assume "Mapping.lookup m j = None"
  then show "Mapping.lookup (fillKnownExploit m) j = None"
    by (simp add: fillKnownExploit_def Mapping.lookup_map_values)
qed

text \<open>
  C7 on the map seeded from the scenario, where \<open>V-1\<close> is there and \<open>V-2\<close> and \<open>V-3\<close> are
  not; on the catalog step of the scenario, which meets no new identifier; and on the
  catalog overlay of the empty map.
\<close>

theorem C7_overlay_frame_witness:
  "Mapping.lookup scenario_seed ''V-1''
     = Some \<lparr>CVE = ''V-1'', CVSSScore = Some (75 / 10), EPSSProbability = None,
              CISAKnownExploit = None, Published = Some (2021, 1, 1)\<rparr>
   \<and> Mapping.lookup scenario_seed ''V-2'' = None
   \<and> Mapping.lookup scenario_seed ''V-3'' = None
   \<and> ''V-2'' \<in> scoreCVE ` set scenario_epss \<and> ''V-3'' \<notin> scoreCVE ` set scenario_epss
   \<and> ''V-2'' \<in> set scenario_catalog \<and> ''V-3'' \<notin> set scenario_catalog
   \<and> (\<exists>r'. Mapping.lookup (fst (overlayEPSS scenario_epss (scenario_seed, []))) ''V-1'' = Some r'
         \<and> CVE r' = ''V-1'' \<and> CVSSScore r' = Some (75 / 10) \<and> Published r' = Some (2021, 1, 1)
         \<and> CISAKnownExploit r' = None)
   \<and> (\<exists>r'. Mapping.lookup (overlayCISA scenario_catalog scenario_seed) ''V-1'' = Some r'
         \<and> CVE r' = ''V-1'' \<and> CVSSScore r' = Some (75 / 10) \<and> Published r' = Some (2021, 1, 1)
         \<and> EPSSProbability r' = None)
   \<and> (\<exists>r'. Mapping.lookup (fillKnownExploit scenario_seed) ''V-1'' = Some r'
         \<and> CVE r' = ''V-1'' \<and> CVSSScore r' = Some (75 / 10) \<and> Published r' = Some (2021, 1, 1)
         \<and> EPSSProbability r' = None)
   \<and> commaOk scenario_seed ''V-2'' = (zeroCVEMeta, False)
   \<and> Mapping.lookup (fst (overlayEPSS scenario_epss (scenario_seed, []))) ''V-2''
       = Some \<lparr>CVE = ''V-2'', CVSSScore = None, EPSSProbability = Some 0,
                CISAKnownExploit = None, Published = None\<rparr>
   \<and> Mapping.lookup (overlayCISA scenario_catalog scenario_seed) ''V-2''
       = Some \<lparr>CVE = ''V-2'', CVSSScore = None, EPSSProbability = None,
                CISAKnownExploit = Some True, Published = None\<rparr>
   \<and> Mapping.lookup (fst (overlayEPSS scenario_epss (scenario_seed, []))) ''V-3'' = None
   \<and> Mapping.lookup (overlayCISA scenario_catalog scenario_seed) ''V-3'' = None
   \<and> Mapping.lookup (fillKnownExploit scenario_seed) ''V-3'' = None
   \<and> (\<exists>r'. Mapping.lookup
               (overlayCISA scenario_catalog (fst (overlayEPSS scenario_epss (scenario_seed, []))))
               ''V-1'' = Some r'
         \<and> CVE r' = ''V-1'' \<and> CVSSScore r' = Some (75 / 10) \<and> Published r' = Some (2021, 1, 1)
         \<and> EPSSProbability r' = Some 0)
   \<and> Mapping.lookup
        (overlayCISA scenario_catalog (Mapping.empty :: (rat, nat \<times> nat \<times> nat) metaMap)) ''V-2''
       = Some \<lparr>CVE = ''V-2'', CVSSScore = None, EPSSProbability = None,
                CISAKnownExploit = Some True, Published = None\<rparr>"
proof -
  let ?r = "\<lparr>CVE = ''V-1'', CVSSScore = Some (75 / 10 :: rat), EPSSProbability = None,
              CISAKnownExploit = None, Published = Some (2021 :: nat, 1 :: nat, 1 :: nat)\<rparr>"
  let ?m1 = "fst (overlayEPSS scenario_epss (scenario_seed, []))"
  have h1: "Mapping.lookup scenario_seed ''V-1'' = Some ?r"
    by (simp add: scenario_seed_def)
  have h2: "Mapping.lookup scenario_seed ''V-2'' = None"
    by (simp add: scenario_seed_def)
  have h3: "Mapping.lookup scenario_seed ''V-3'' = None"
    by (simp add: scenario_seed_def)
  have h4: "''V-2'' \<in> scoreCVE ` set scenario_epss" "''V-3'' \<notin> scoreCVE ` set scenario_epss"
    by (simp_all add: scenario_epss_def)
  have h5: "''V-2'' \<in> set scenario_catalog" "''V-3'' \<notin> set scenario_catalog"
    by (simp_all add: scenario_catalog_def)
  have h6: "Mapping.lookup ?m1 ''V-1'' = Some (?r\<lparr>EPSSProbability := Some 0\<rparr>)"
    using h1 by (simp add: overlayEPSS_lookup scenario_epss_def del: overlayEPSS.simps)
  have h7: "Mapping.lookup (Mapping.empty :: (rat, nat \<times> nat \<times> nat) metaMap) ''V-2'' = None"
    by simp
  note a = C7_overlay_frame [where m = scenario_seed and k = "''V-1''" and r = ?r
      and es = scenario_epss and h = "[]" and ids = scenario_catalog and k' = "''V-2''"
      and j = "''V-3''"]
  note b = C7_overlay_frame [where m = ?m1 and k = "''V-1''"
      and r = "?r\<lparr>EPSSProbability := Some 0\<rparr>" and ids = scenario_catalog]
  note c = C7_overlay_frame [where m = "Mapping.empty :: (rat, nat \<times> nat \<times> nat) metaMap"
      and k' = "''V-2''" and ids = scenario_catalog]
  from a h1 h2 h3 h4 h5
  have A: "(\<exists>r'. Mapping.lookup (fst (overlayEPSS scenario_epss (scenario_seed, []))) ''V-1'' = Some r'
         \<and> CVE r' = ''V-1'' \<and> CVSSScore r' = Some (75 / 10) \<and> Published r' = Some (2021, 1, 1)
         \<and> CISAKnownExploit r' = None)
   \<and> (\<exists>r'. Mapping.lookup (overlayCISA scenario_catalog scenario_seed) ''V-1'' = Some r'
         \<and> CVE r' = ''V-1'' \<and> CVSSScore r' = Some (75 / 10) \<and> Published r' = Some (2021, 1, 1)
         \<and> EPSSProbability r' = None)
   \<and> (\<exists>r'. Mapping.lookup (fillKnownExploit scenario_seed) ''V-1'' = Some r'
         \<and> CVE r' = ''V-1'' \<and> CVSSScore r' = Some (75 / 10) \<and> Published r' = Some (2021, 1, 1)
         \<and> EPSSProbability r' = None)
   \<and> commaOk scenario_seed ''V-2'' = (zeroCVEMeta, False)
   \<and> Mapping.lookup (fst (overlayEPSS scenario_epss (scenario_seed, []))) ''V-2''
       = Some \<lparr>CVE = ''V-2'', CVSSScore = None, EPSSProbability = Some 0,
                CISAKnownExploit = None, Published = None\<rparr>
   \<and> Mapping.lookup (overlayCISA scenario_catalog scenario_seed) ''V-2''
       = Some \<lparr>CVE = ''V-2'', CVSSScore = None, EPSSProbability = None,
                CISAKnownExploit = Some True, Published = None\<rparr>
   \<and> Mapping.lookup (fst (overlayEPSS scenario_epss (scenario_seed, []))) ''V-3'' = None
   \<and> Mapping.lookup (overlayCISA scenario_catalog scenario_seed) ''V-3'' = None
   \<and> Mapping.lookup (fillKnownExploit scenario_seed) ''V-3'' = None"
    by (simp del: overlayEPSS.simps)
  from b h6
  have B: "\<exists>r'. Mapping.lookup (overlayCISA scenario_catalog ?m1) ''V-1'' = Some r'
         \<and> CVE r' = ''V-1'' \<and> CVSSScore r' = Some (75 / 10) \<and> Published r' = Some (2021, 1, 1)
         \<and> EPSSProbability r' = Some 0"
    by (simp del: overlayEPSS.simps)
  from c h7 h5
  have C: "Mapping.lookup
        (overlayCISA scenario_catalog (Mapping.empty :: (rat, nat \<times> nat \<times> nat) metaMap)) ''V-2''
       = Some \<lparr>CVE = ''V-2'', CVSSScore = None, EPSSProbability = None,
                CISAKnownExploit = Some True, Published = None\<rparr>"
    by simp
  from h1 h2 h3 h4 h5 A B C show ?thesis by (simp del: overlayEPSS.simps)
qed

text \<open>
  C8.  If the dictionary has no entry with a version 3 block, the scores file yields no
  score and the catalog is empty, then \<open>LoadCVEMeta\<close> returns \<open>nil\<close> and makes no call of
  \<open>InsertCVEMeta\<close>.
\<close>

theorem C8_empty_no_insert:
  assumes "getNVDCVEFeedFiles w = Inr files" and "LoadJSONDictionary w files = Inr dict"
    and "list_all (\<lambda>entry. BaseMetricV3 (snd entry) = None) dict"
    and "parseEPSSScoresFile (ParseFloat w) (Open w) = Inr []"
    and "ReadFile w = Inr b" and "Unmarshal w b = Inr []"
  shows "LoadCVEMeta w = (None, [])"
proof -
  from assms(3) have "seedCVSS (timeParse w) dict Mapping.empty = Inr Mapping.empty"
    by (rule seedCVSS_no_V3)
  with assms(1,2,4,5,6) show ?thesis
    by (simp add: LoadCVEMeta_def fillKnownExploit_def)
qed

text \<open>
  C8 on a run with an empty dictionary, a scores file of the header alone and an empty
  catalog.
\<close>

theorem C8_empty_no_insert_witness:
  "getNVDCVEFeedFiles (world_of [] [''cve,epss,percentile''] []) = Inr [''nvdcve-1.1-2021.json.gz'']
   \<and> LoadJSONDictionary (world_of [] [''cve,epss,percentile''] []) [''nvdcve-1.1-2021.json.gz'']
       = Inr []
   \<and> parseEPSSScoresFile (ParseFloat (world_of [] [''cve,epss,percentile''] []))
        (Open (world_of [] [''cve,epss,percentile''] [])) = Inr []
   \<and> ReadFile (world_of [] [''cve,epss,percentile''] []) = Inr []
   \<and> Unmarshal (world_of [] [''cve,epss,percentile''] []) [] = Inr []
   \<and> LoadCVEMeta (world_of [] [''cve,epss,percentile''] []) = (None, [])"
proof -
  let ?w = "world_of [] [''cve,epss,percentile''] []"
  have h1: "getNVDCVEFeedFiles ?w = Inr [''nvdcve-1.1-2021.json.gz'']"
    by (simp add: world_of_def)
  have h2: "LoadJSONDictionary ?w [''nvdcve-1.1-2021.json.gz''] = Inr []"
    by (simp add: world_of_def)
  have h3: "list_all (\<lambda>entry. BaseMetricV3 (snd entry) = None) ([] :: (string \<times> rat Schema) list)"
    by simp
  have "parseEPSSScoresFile parseFloat_sample (Inr [''cve,epss,percentile'']) = Inr []"
    by code_simp
  then have h4: "parseEPSSScoresFile (ParseFloat ?w) (Open ?w) = Inr []"
    by (simp add: world_of_def)
  have h5: "ReadFile ?w = Inr []" by (simp add: world_of_def)
  have h6: "Unmarshal ?w [] = Inr []" by (simp add: world_of_def)
  from h1 h2 h4 h5 h6 C8_empty_no_insert [OF h1 h2 h3 h4 h5 h6] show ?thesis by blast
qed

text \<open>
  C9.  The claim: every record of the map has an identifier that is not empty.  Nothing in
  the parsers or the merge looks at the identifier: a row of the scores file whose first
  field is empty gives a record with the empty identifier.
\<close>

theorem C9_empty_identifier_counterexample:
  "parseEPSSScoresFile parseFloat_sample (Inr [''cve,epss,percentile'', '',0.5,0.9''])
     = Inr [\<lparr>scoreCVE = [], Score = 1 / 2\<rparr>]
   \<and> merge timeParse_sample [] [\<lparr>scoreCVE = [], Score = 1 / 2 :: rat\<rparr>] []
     = Inr (Mapping.update []
              \<lparr>CVE = [], CVSSScore = None, EPSSProbability = Some 0,
               CISAKnownExploit = Some False, Published = None\<rparr> Mapping.empty,
            [\<lparr>scoreCVE = [], Score = 1 / 2\<rparr>])"
proof
  show "parseEPSSScoresFile parseFloat_sample (Inr [''cve,epss,percentile'', '',0.5,0.9''])
     = Inr [\<lparr>scoreCVE = [], Score = 1 / 2\<rparr>]"
    by code_simp
  show "merge timeParse_sample [] [\<lparr>scoreCVE = [], Score = 1 / 2 :: rat\<rparr>] []
     = Inr (Mapping.update []
              \<lparr>CVE = [], CVSSScore = None, EPSSProbability = Some 0,
               CISAKnownExploit = Some False, Published = None\<rparr> Mapping.empty,
            [\<lparr>scoreCVE = [], Score = 1 / 2\<rparr>])"
    by (simp add: merge_def commaOk_def zeroCVEMeta_def Let_def fillKnownExploit_def
        Mapping.map_values_update map_values_empty)
qed

text \<open>
  C9, amended: every record of the map has as identifier the key it is stored under, so
  two records have the same identifier only if they are the same entry; and the identifier
  is one that the dictionary, the scores or the catalog supplied (so it is not empty when
  none of theirs is).
\<close>

theorem C9_identifier_is_key:
  assumes "merge pt dict es cat = Inr (m, h)" and "Mapping.lookup m k = Some r"
    and "Mapping.lookup m k' = Some r'"
  shows "CVE r = k \<and> (CVE r = CVE r') = (k = k')
       \<and> CVE r \<in> fst ` set dict \<union> scoreCVE ` set es \<union> set cat"
proof -
  from assms(1,2) have r: "CVE r = k" by (rule merge_lookup(1))
  from assms(1,3) have r': "CVE r' = k'" by (rule merge_lookup(1))
  from assms(1,2) have "k \<in> fst ` set dict \<or> k \<in> scoreCVE ` set es \<or> k \<in> set cat"
    by (rule merge_lookup(3))
  with r r' show ?thesis by auto
qed

text \<open>
  C9, amended, at the scenario of the specification, for the records of \<open>V-1\<close> and
  \<open>V-2\<close>.
\<close>

theorem C9_identifier_is_key_witness:
  "merge timeParse_sample scenario_dict scenario_epss scenario_catalog
     = Inr (scenario_map, scenario_heap)
   \<and> Mapping.lookup scenario_map ''V-1''
       = Some \<lparr>CVE = ''V-1'', CVSSScore = Some (75 / 10), EPSSProbability = Some 0,
                CISAKnownExploit = Some False, Published = Some (2021, 1, 1)\<rparr>
   \<and> Mapping.lookup scenario_map ''V-2''
       = Some \<lparr>CVE = ''V-2'', CVSSScore = None, EPSSProbability = Some 0,
                CISAKnownExploit = Some True, Published = None\<rparr>
   \<and> ''V-1'' \<in> fst ` set scenario_dict \<union> scoreCVE ` set scenario_epss \<union> set scenario_catalog
   \<and> ''V-1'' \<noteq> ''V-2''"
proof -
  have h1: "merge timeParse_sample scenario_dict scenario_epss scenario_catalog
     = Inr (scenario_map, scenario_heap)" by (rule merge_scenario)
  have h2: "Mapping.lookup scenario_map ''V-1''
       = Some \<lparr>CVE = ''V-1'', CVSSScore = Some (75 / 10), EPSSProbability = Some 0,
                CISAKnownExploit = Some False, Published = Some (2021, 1, 1)\<rparr>"
    by (simp add: scenario_map_def)
  have h3: "Mapping.lookup scenario_map ''V-2''
       = Some \<lparr>CVE = ''V-2'', CVSSScore = None, EPSSProbability = Some 0,
                CISAKnownExploit = Some True, Published = None\<rparr>"
    by (simp add: scenario_map_def)
  from h1 h2 h3 C9_identifier_is_key [OF h1 h2 h3] show ?thesis by simp
qed

text \<open>
  C10.  Let \<open>l\<close> be a line that is a record with a number of fields other than 3, or with a
  quoting error that shows on the line itself, and \<open>e\<close> its error.  As the first line of
  the file it does no harm: the header read takes it as the record with the error \<open>e\<close>
  and drops it, and the result is that of the loop on the lines after it.  Right after a
  first line \<open>h\<close> that is a record it makes the parse fail with \<open>e\<close>.  And in every file,
  a record with the error \<open>e\<close> anywhere after the first record makes the parse return an
  error.
\<close>

theorem C10_header_error_discarded:
  "(l \<noteq> [] \<and> hd l \<noteq> CHR ''#'' \<and> lineError l = Some e \<longrightarrow>
      parseEPSSScoresFile pf (Inr (l # ls)) = parseEPSSScoresFile_loop pf (epssReader ls) []
    \<and> records (epssReader (l # ls)) = Inl e # records (epssReader ls)
    \<and> (h \<noteq> [] \<and> hd h \<noteq> CHR ''#'' \<and> confined h \<longrightarrow>
         parseEPSSScoresFile pf (Inr (h # l # ls)) = Inl (CSV e)))
   \<and> (Inl e \<in> set (tl (records (epssReader lines))) \<longrightarrow>
        (\<exists>e'. parseEPSSScoresFile pf (Inr lines) = Inl e'))"
proof (intro conjI impI)
  assume l: "l \<noteq> [] \<and> hd l \<noteq> CHR ''#'' \<and> lineError l = Some e"
  then have rd: "\<And>ls. Read (epssReader (l # ls)) = (Inl (ParseError e), epssReader ls)"
    by (simp add: Read_lineError)
  show "parseEPSSScoresFile pf (Inr (l # ls)) = parseEPSSScoresFile_loop pf (epssReader ls) []"
    by (simp add: parseEPSSScoresFile_unfold rd)
  show "records (epssReader (l # ls)) = Inl e # records (epssReader ls)"
    by (simp add: records.simps [of "epssReader (l # ls)"] rd)
  assume "h \<noteq> [] \<and> hd h \<noteq> CHR ''#'' \<and> confined h"
  then have "snd (Read (epssReader (h # l # ls))) = epssReader (l # ls)"
    by (simp add: Read_confined_record)
  then show "parseEPSSScoresFile pf (Inr (h # l # ls)) = Inl (CSV e)"
    by (simp add: parseEPSSScoresFile_unfold
        parseEPSSScoresFile_loop.simps [of pf "epssReader (l # ls)"] rd)
next
  assume "Inl e \<in> set (tl (records (epssReader lines)))"
  then have "Inl e \<in> set (records (snd (Read (epssReader lines))))"
    by (simp add: records_tl)
  then have "\<exists>e'. parseEPSSScoresFile_loop pf (snd (Read (epssReader lines))) [] = Inl e'"
    by (rule loop_fails) simp
  then show "\<exists>e'. parseEPSSScoresFile pf (Inr lines) = Inl e'"
    by (simp add: parseEPSSScoresFile_unfold)
qed

text \<open>
  C10 for a line of two fields: as the first line, as the second line, and after a record
  that runs over two lines.
\<close>

theorem C10_header_error_discarded_witness:
  "''cve,epss'' \<noteq> [] \<and> hd ''cve,epss'' \<noteq> CHR ''#''
   \<and> lineError ''cve,epss'' = Some ErrFieldCount
   \<and> ''cve,epss,percentile'' \<noteq> [] \<and> hd ''cve,epss,percentile'' \<noteq> CHR ''#''
   \<and> confined ''cve,epss,percentile''
   \<and> Inl ErrFieldCount
       \<in> set (tl (records (epssReader
            [''cve,epss,percentile'', ''CVE-1,0.5,'' @ [quote, CHR ''a''], [CHR ''b'', quote],
             ''cve,epss'', ''CVE-2,0.25,0.1''])))
   \<and> parseEPSSScoresFile parseFloat_sample (Inr [''cve,epss'', ''CVE-1,0.5,0.9''])
       = parseEPSSScoresFile_loop parseFloat_sample (epssReader [''CVE-1,0.5,0.9'']) []
   \<and> records (epssReader [''cve,epss'', ''CVE-1,0.5,0.9''])
       = Inl ErrFieldCount # records (epssReader [''CVE-1,0.5,0.9''])
   \<and> parseEPSSScoresFile parseFloat_sample
        (Inr [''cve,epss,percentile'', ''cve,epss'', ''CVE-1,0.5,0.9''])
       = Inl (CSV ErrFieldCount)
   \<and> (\<exists>e'. parseEPSSScoresFile parseFloat_sample
              (Inr [''cve,epss,percentile'', ''CVE-1,0.5,'' @ [quote, CHR ''a''], [CHR ''b'', quote],
                    ''cve,epss'', ''CVE-2,0.25,0.1'']) = Inl e')"
proof -
  have h1: "''cve,epss'' \<noteq> [] \<and> hd ''cve,epss'' \<noteq> CHR ''#''
            \<and> lineError ''cve,epss'' = Some ErrFieldCount"
    by code_simp
  have h2: "''cve,epss,percentile'' \<noteq> [] \<and> hd ''cve,epss,percentile'' \<noteq> CHR ''#''
            \<and> confined ''cve,epss,percentile''"
    by code_simp
  have h3: "Inl ErrFieldCount
       \<in> set (tl (records (epssReader
            [''cve,epss,percentile'', ''CVE-1,0.5,'' @ [quote, CHR ''a''], [CHR ''b'', quote],
             ''cve,epss'', ''CVE-2,0.25,0.1''])))"
    by code_simp
  note c = C10_header_error_discarded [where l = "''cve,epss''" and e = ErrFieldCount
      and pf = parseFloat_sample and ls = "[''CVE-1,0.5,0.9'']" and h = "''cve,epss,percentile''"
      and lines = "[''cve,epss,percentile'', ''CVE-1,0.5,'' @ [quote, CHR ''a''], [CHR ''b'', quote],
             ''cve,epss'', ''CVE-2,0.25,0.1'']"]
  from h1 h2 h3 c show ?thesis by blast
qed

text \<open>
  The text of such a line inside a quoted field that began on an earlier line is part of
  that field, not a record of its own.
\<close>

lemma line_inside_quoted_field:
  "parseEPSSScoresFile parseFloat_sample
     (Inr [''cve,epss,percentile'', ''CVE-1,0.5,'' @ [quote, CHR ''a''], ''cve,epss'',
           [CHR ''b'', quote], ''CVE-2,0.25,0.1''])
   = Inr [\<lparr>scoreCVE = ''CVE-1'', Score = 1 / 2\<rparr>, \<lparr>scoreCVE = ''CVE-2'', Score = 1 / 4\<rparr>]
   \<and> records (epssReader
        [''cve,epss,percentile'', ''CVE-1,0.5,'' @ [quote, CHR ''a''], ''cve,epss'',
         [CHR ''b'', quote], ''CVE-2,0.25,0.1''])
     = [Inr [''cve'', ''epss'', ''percentile''],
        Inr [''CVE-1'', ''0.5'', [CHR ''a'', newline] @ ''cve,epss'' @ [newline, CHR ''b'']],
        Inr [''CVE-2'', ''0.25'', ''0.1'']]"
  by code_simp

text \<open>
  The same for a line with a quote inside an unquoted field: dropped with its error as the
  first line, fatal with \<open>ErrBareQuote\<close> as the third.
\<close>

lemma bare_quote_first_or_later:
  "lineError [CHR ''a'', quote, CHR ''b'', comma, CHR ''c'', comma, CHR ''d''] = Some ErrBareQuote
   \<and> parseEPSSScoresFile parseFloat_sample
        (Inr [[CHR ''a'', quote, CHR ''b'', comma, CHR ''c'', comma, CHR ''d''], ''CVE-1,0.5,0.9''])
       = Inr [\<lparr>scoreCVE = ''CVE-1'', Score = 1 / 2\<rparr>]
   \<and> parseEPSSScoresFile parseFloat_sample
        (Inr [''cve,epss,percentile'', ''CVE-1,0.5,0.9'',
              [CHR ''a'', quote, CHR ''b'', comma, CHR ''c'', comma, CHR ''d'']])
       = Inl (CSV ErrBareQuote)"
  by code_simp

end
